theory Spec2Isabelle
  imports Main "HOL-Library.Word"
begin

section \<open>The RFID attendance reader sketch (sih\_rfid.ino)\<close>

text \<open>
  The sketch has three functions: \<open>blinkLED\<close>, \<open>setup\<close> and \<open>loop\<close>. They act on the
  two indicator pins, the serial port, the tag reader, the WiFi stack and the HTTP client.
  The model keeps the level of each indicator pin and the list of calls made to the
  hardware and to the libraries, in the order the sketch makes them. What the libraries
  answer (is a card present, is WiFi connected, what did the POST return) is an input.
\<close>

subsection \<open>Building the UID string (loop, lines 69 to 73)\<close>

type_synonym byte = "8 word"

text \<open>
  \<open>String(value, HEX)\<close> with a \<open>byte\<close> argument is the Arduino constructor
  \<open>String(unsigned char value, unsigned char base)\<close>, which fills its buffer with
  \<open>utoa(value, buf, base)\<close>. \<open>utoa\<close> refuses a base outside 2..36 and otherwise writes the
  digits of the value, least significant first, in a do-while loop that stops when the
  quotient is zero, then reverses them. Its digit table is lowercase. Nothing pads the
  result to a fixed width.
\<close>

definition utoa_digits :: string where
  "utoa_digits = ''0123456789abcdefghijklmnopqrstuvwxyz''"

function utoa_loop :: "nat \<Rightarrow> nat \<Rightarrow> string" where
  "utoa_loop v base =
     (if base < 2 then []
      else (utoa_digits ! (v mod base)) #
           (if v div base \<noteq> 0 then utoa_loop (v div base) base else []))"
  by pat_completeness auto
termination
proof (relation "measure (\<lambda>(v, base). v)")
  show "wf (measure (\<lambda>(v, base). v))" by simp
next
  fix v base :: nat
  assume b: "\<not> base < 2" and q: "v div base \<noteq> 0"
  from q have "0 < v" by (cases "v = 0") simp_all
  with b have "v div base < v" by (simp add: div_less_dividend)
  then show "((v div base, base), (v, base)) \<in> measure (\<lambda>(v, base). v)" by simp
qed

definition utoa :: "nat \<Rightarrow> nat \<Rightarrow> string" where
  "utoa v base = (if base < 2 \<or> 36 < base then [] else rev (utoa_loop v base))"

definition HEX :: nat where
  "HEX = 16"

definition String_of_byte :: "byte \<Rightarrow> nat \<Rightarrow> string" where
  "String_of_byte b base = utoa (unat b) base"

text \<open>\<open>String::toLowerCase\<close> replaces every character by C's \<open>tolower\<close> of it.\<close>

definition tolower :: "char \<Rightarrow> char" where
  "tolower c =
     (let n = (of_char c :: nat)
      in if 65 \<le> n \<and> n \<le> 90 then char_of (n + 32) else c)"

definition toLowerCase :: "string \<Rightarrow> string" where
  "toLowerCase s = map tolower s"

text \<open>
  The loop \<open>for (byte i = 0; i < uid.size; i++) uid += String(uid.uidByte[i], HEX)\<close>
  visits the bytes \<open>uidByte[0]\<close>, ..., \<open>uidByte[size - 1]\<close> in order; the list is that
  sequence of bytes and the accumulator is the variable \<open>uid\<close>.
\<close>

fun uid_append :: "string \<Rightarrow> byte list \<Rightarrow> string" where
  "uid_append uid [] = uid"
| "uid_append uid (b # bs) = uid_append (uid @ String_of_byte b HEX) bs"

definition build_uid :: "byte list \<Rightarrow> string" where
  "build_uid bs = toLowerCase (uid_append [] bs)"

subsection \<open>Pins, calls and the hardware state\<close>

datatype pin = RED_LED | GREEN_LED

text \<open>
  One constructor for each call the sketch makes that acts on the outside world.
  \<open>HIGH\<close> is \<open>True\<close> and \<open>LOW\<close> is \<open>False\<close>.
\<close>

datatype event =
    Serial_begin int
  | PinMode_output pin
  | SPI_begin
  | PCD_Init
  | WiFi_begin string string
  | Serial_print string
  | Serial_println string
  | Serial_println_int int
  | DigitalWrite pin bool
  | Delay int
  | Http_begin string
  | Http_addHeader string string
  | Http_POST string
  | Http_getString
  | Http_end

record hw =
  level :: "pin \<Rightarrow> bool"
  calls :: "event list"

definition emit :: "event \<Rightarrow> hw \<Rightarrow> hw" where
  "emit ev s = s\<lparr>calls := calls s @ [ev]\<rparr>"

definition digitalWrite :: "pin \<Rightarrow> bool \<Rightarrow> hw \<Rightarrow> hw" where
  "digitalWrite p v s = emit (DigitalWrite p v) (s\<lparr>level := (level s)(p := v)\<rparr>)"

definition delay :: "int \<Rightarrow> hw \<Rightarrow> hw" where
  "delay ms s = emit (Delay ms) s"

subsection \<open>Configuration (lines 19 to 21)\<close>

definition ssid :: string where
  "ssid = ''JioFib5G''"

definition password :: string where
  "password = ''********''"

definition serverURL :: string where
  "serverURL = ''http://192.168.29.130:5000/api/rfid_scan''"

subsection \<open>blinkLED (lines 25 to 32)\<close>

text \<open>
  \<open>blinkLED_from i\<close> is the \<open>for\<close> loop with its counter at \<open>i\<close>. The counter never
  overflows: it is incremented only while it is below \<open>times\<close> (written \<open>times'\<close> here).
\<close>

function blinkLED_from :: "int \<Rightarrow> pin \<Rightarrow> int \<Rightarrow> int \<Rightarrow> hw \<Rightarrow> hw" where
  "blinkLED_from i p times' delayMs s =
     (if i < times'
      then blinkLED_from (i + 1) p times' delayMs
             (delay delayMs (digitalWrite p False (delay delayMs (digitalWrite p True s))))
      else s)"
  by pat_completeness auto
termination
  by (relation "measure (\<lambda>(i, p, times', delayMs, s). nat (times' - i))") auto

declare blinkLED_from.simps [simp del]

definition blinkLED :: "pin \<Rightarrow> int \<Rightarrow> int \<Rightarrow> hw \<Rightarrow> hw" where
  "blinkLED p times' delayMs s = blinkLED_from 0 p times' delayMs s"

subsection \<open>What the libraries answer\<close>

text \<open>
  One record holds what the outside world answers during one pass: the result of
  \<open>WiFi.status() == WL_CONNECTED\<close>, of \<open>PICC_IsNewCardPresent()\<close> and of
  \<open>PICC_ReadCardSerial()\<close>, the bytes \<open>uid.uidByte[0 .. uid.size - 1]\<close> the reader
  left, the value \<open>http.POST\<close> returns (the HTTP status when a response was received,
  a negative \<open>HTTPC_ERROR_...\<close> code when the exchange failed), the text of
  \<open>http.getString()\<close>, of \<open>http.errorToString(...)\<close> and of \<open>WiFi.localIP()\<close>.
\<close>

record env =
  wifi_connected :: bool
  new_card_present :: bool
  read_card_serial :: bool
  uid_bytes :: "byte list"
  post_result :: int
  response_body :: string
  error_text :: string
  local_ip :: string

subsection \<open>loop (lines 62 to 122)\<close>

definition json_of_uid :: "string \<Rightarrow> string" where
  \<open>json_of_uid uid = ''{"uid":"'' @ uid @ ''"}''\<close>

definition server_error_message :: string where
  "server_error_message =
     [CHR 0xE2, CHR 0x9A, CHR 0xA0, CHR 0xEF, CHR 0xB8, CHR 0x8F] @ '' Server error / mismatch!''"

definition loop_connected :: "env \<Rightarrow> string \<Rightarrow> hw \<Rightarrow> hw" where
  "loop_connected e uid s0 =
     (let s1 = emit (Http_begin serverURL) s0;
          s2 = emit (Http_addHeader ''Content-Type'' ''application/json'') s1;
          json = json_of_uid uid;
          s3 = emit (Serial_print ''Sending UID to server: '') s2;
          s4 = emit (Serial_println json) s3;
          s5 = blinkLED GREEN_LED 2 100 s4;
          s6 = emit (Http_POST json) s5;
          httpResponseCode = post_result e;
          s7 = (if httpResponseCode > 0 then
                  let t1 = emit Http_getString s6;
                      t2 = emit (Serial_print ''Server response code: '') t1;
                      t3 = emit (Serial_println_int httpResponseCode) t2;
                      t4 = emit (Serial_print ''Response body: '') t3;
                      t5 = emit (Serial_println (response_body e)) t4
                  in if httpResponseCode = 200 then blinkLED GREEN_LED 3 200 t5
                     else blinkLED RED_LED 3 200 (emit (Serial_println server_error_message) t5)
                else
                  let t1 = emit (Serial_print ''HTTP Request failed: '') s6;
                      t2 = emit (Serial_println (error_text e)) t1
                  in blinkLED RED_LED 5 100 t2)
      in emit Http_end s7)"

definition loop :: "env \<Rightarrow> hw \<Rightarrow> hw" where
  "loop e s0 =
     (if \<not> new_card_present e \<or> \<not> read_card_serial e then s0
      else
        let uid = build_uid (uid_bytes e);
            s1 = emit (Serial_print ''Card detected, UID: '') s0;
            s2 = emit (Serial_println uid) s1;
            s3 = blinkLED RED_LED 1 150 s2;
            s4 = (if wifi_connected e then loop_connected e uid s3
                  else blinkLED RED_LED 2 400 (emit (Serial_println ''WiFi not connected!'') s3))
        in delay 2000 s4)"

subsection \<open>setup (lines 34 to 60)\<close>

text \<open>
  \<open>setup\<close> in three parts: the statements before the wait loop, one pass of the body of
  \<open>while (WiFi.status() != WL_CONNECTED)\<close>, and the statements after the loop.
\<close>

definition setup_begin :: "hw \<Rightarrow> hw" where
  "setup_begin s0 =
     (let s1 = emit (Serial_begin 115200) s0;
          s2 = emit (PinMode_output RED_LED) s1;
          s3 = emit (PinMode_output GREEN_LED) s2;
          s4 = emit SPI_begin s3;
          s5 = emit PCD_Init s4;
          s6 = emit (Serial_println ''Booting...'') s5
      in emit (WiFi_begin ssid password) s6)"

definition setup_wait :: "hw \<Rightarrow> hw" where
  "setup_wait s0 =
     (let s1 = blinkLED RED_LED 1 300 s0;
          s2 = blinkLED GREEN_LED 1 300 s1
      in emit (Serial_println ''Connecting to WiFi...'') s2)"

definition setup_end :: "env \<Rightarrow> hw \<Rightarrow> hw" where
  "setup_end e s0 =
     (let s1 = emit (Serial_println ''Connected to WiFi!'') s0;
          s2 = emit (Serial_print ''IP Address: '') s1;
          s3 = emit (Serial_println (local_ip e)) s2
      in digitalWrite GREEN_LED True s3)"

subsection \<open>The device from power-on\<close>

text \<open>
  The Arduino runtime calls \<open>setup\<close> once and then \<open>loop\<close> for ever. The position of
  the control in that program is the device state: \<open>Booting\<close> before \<open>WiFi.begin\<close> has
  been called, \<open>ConnectingNetwork\<close> in the wait loop of \<open>setup\<close>, \<open>Ready\<close> from the end
  of \<open>setup\<close> on. One step is the run from one such position to the next, given what the
  outside world answers on the way; the step from \<open>Booting\<close> asks it nothing.
\<close>

datatype DeviceState = Booting | ConnectingNetwork | Ready

record device =
  state :: DeviceState
  board :: hw

definition power_on :: device where
  "power_on = \<lparr>state = Booting, board = \<lparr>level = (\<lambda>p. False), calls = []\<rparr>\<rparr>"

fun step :: "device \<Rightarrow> env \<Rightarrow> device" where
  "step d e =
     (case state d of
        Booting \<Rightarrow> \<lparr>state = ConnectingNetwork, board = setup_begin (board d)\<rparr>
      | ConnectingNetwork \<Rightarrow>
          (if wifi_connected e then \<lparr>state = Ready, board = setup_end e (board d)\<rparr>
           else \<lparr>state = ConnectingNetwork, board = setup_wait (board d)\<rparr>)
      | Ready \<Rightarrow> \<lparr>state = Ready, board = loop e (board d)\<rparr>)"

definition run :: "device \<Rightarrow> env list \<Rightarrow> device" where
  "run d es = foldl step d es"

subsection \<open>Notions used to state the properties\<close>

text \<open>
  The calls one indicator pattern consists of, in the words of the specification:
  \<open>n\<close> on/off toggles of one light, each phase held for \<open>d\<close> milliseconds.
\<close>

definition pattern_calls :: "pin \<Rightarrow> nat \<Rightarrow> int \<Rightarrow> event list" where
  "pattern_calls p n d =
     concat (replicate n [DigitalWrite p True, Delay d, DigitalWrite p False, Delay d])"

text \<open>The calls that drive a light or hold a phase, and the calls to the HTTP client.\<close>

fun is_signal :: "event \<Rightarrow> bool" where
  "is_signal (DigitalWrite p v) = True"
| "is_signal (Delay d) = True"
| "is_signal ev = False"

fun is_http :: "event \<Rightarrow> bool" where
  "is_http (Http_begin u) = True"
| "is_http (Http_addHeader k v) = True"
| "is_http (Http_POST b) = True"
| "is_http Http_getString = True"
| "is_http Http_end = True"
| "is_http ev = False"

text \<open>The calls a function adds to the ones already made.\<close>

definition emitted :: "(hw \<Rightarrow> hw) \<Rightarrow> hw \<Rightarrow> event list" where
  "emitted f s = drop (length (calls s)) (calls (f s))"

text \<open>
  The sketch computes no outcome value. The specification's \<open>ReportOutcome\<close> names the
  branch \<open>loop\<close> takes for a tag: the tests of line 81 (\<open>WiFi.status() == WL_CONNECTED\<close>),
  line 96 (\<open>httpResponseCode > 0\<close>) and line 103 (\<open>httpResponseCode == 200\<close>).
\<close>

datatype ReportOutcome =
    Success
  | ServerRejected int string
  | TransportFailed string
  | NetworkUnavailable

definition outcome :: "env \<Rightarrow> ReportOutcome" where
  "outcome e =
     (if wifi_connected e then
        (if post_result e > 0 then
           (if post_result e = 200 then Success
            else ServerRejected (post_result e) (response_body e))
         else TransportFailed (error_text e))
      else NetworkUnavailable)"

text \<open>How many steps of a run enter \<open>Ready\<close> from another state.\<close>

fun ready_entries :: "device \<Rightarrow> env list \<Rightarrow> nat" where
  "ready_entries d [] = 0"
| "ready_entries d (e # es) =
     (if state d \<noteq> Ready \<and> state (step d e) = Ready then 1 else 0) +
     ready_entries (step d e) es"

text \<open>Concrete answers of the outside world, used as test inputs.\<close>

definition tag_scan :: "byte list \<Rightarrow> bool \<Rightarrow> int \<Rightarrow> env" where
  "tag_scan bs connected code =
     \<lparr>wifi_connected = connected, new_card_present = True, read_card_serial = True,
      uid_bytes = bs, post_result = code, response_body = ''ok'',
      error_text = ''connection failed'', local_ip = ''192.168.29.50''\<rparr>"

definition no_tag :: "bool \<Rightarrow> env" where
  "no_tag connected =
     \<lparr>wifi_connected = connected, new_card_present = False, read_card_serial = False,
      uid_bytes = [], post_result = 0, response_body = [], error_text = [],
      local_ip = ''192.168.29.50''\<rparr>"

section \<open>Properties\<close>

subsection \<open>The calls and the pin levels of each function\<close>

lemma calls_emit: "calls (emit ev s) = calls s @ [ev]"
  by (simp add: emit_def)

lemma level_emit: "level (emit ev s) = level s"
  by (simp add: emit_def)

lemma calls_digitalWrite: "calls (digitalWrite p v s) = calls s @ [DigitalWrite p v]"
  by (simp add: digitalWrite_def emit_def)

lemma level_digitalWrite: "level (digitalWrite p v s) = (level s)(p := v)"
  by (simp add: digitalWrite_def emit_def)

lemma calls_delay: "calls (delay ms s) = calls s @ [Delay ms]"
  by (simp add: delay_def emit_def)

lemma level_delay: "level (delay ms s) = level s"
  by (simp add: delay_def emit_def)

lemmas hw_simps = calls_emit level_emit calls_digitalWrite level_digitalWrite
  calls_delay level_delay

lemma pattern_calls_Suc:
  "pattern_calls p (Suc n) d =
     [DigitalWrite p True, Delay d, DigitalWrite p False, Delay d] @ pattern_calls p n d"
  by (simp add: pattern_calls_def)

lemma calls_blinkLED_from:
  "calls (blinkLED_from i p t d s) = calls s @ pattern_calls p (nat (t - i)) d"
proof (induction i p t d s rule: blinkLED_from.induct)
  case (1 i p t d s)
  show ?case
  proof (cases "i < t")
    case True
    then have n: "nat (t - i) = Suc (nat (t - (i + 1)))" by simp
    from True "1.IH" show ?thesis
      by (subst blinkLED_from.simps) (simp add: n pattern_calls_Suc hw_simps)
  next
    case False
    then show ?thesis by (subst blinkLED_from.simps) (simp add: pattern_calls_def)
  qed
qed

lemma level_blinkLED_from:
  "level (blinkLED_from i p t d s) = (if i < t then (level s)(p := False) else level s)"
proof (induction i p t d s rule: blinkLED_from.induct)
  case (1 i p t d s)
  show ?case
  proof (cases "i < t")
    case True
    from True "1.IH" show ?thesis
      by (subst blinkLED_from.simps) (simp add: hw_simps)
  next
    case False
    then show ?thesis by (subst blinkLED_from.simps) simp
  qed
qed

lemma calls_blinkLED: "calls (blinkLED p t d s) = calls s @ pattern_calls p (nat t) d"
  by (simp add: blinkLED_def calls_blinkLED_from)

lemma level_blinkLED:
  "level (blinkLED p t d s) = (if 0 < t then (level s)(p := False) else level s)"
  by (simp add: blinkLED_def level_blinkLED_from)

lemma signals_pattern_calls: "filter is_signal (pattern_calls p n d) = pattern_calls p n d"
  by (induction n) (simp_all add: pattern_calls_Suc, simp add: pattern_calls_def)

lemma http_pattern_calls: "filter is_http (pattern_calls p n d) = []"
  by (induction n) (simp_all add: pattern_calls_Suc, simp add: pattern_calls_def)


lemma calls_loop_connected:
  "calls (loop_connected e uid s) =
     calls s @
     [Http_begin serverURL, Http_addHeader ''Content-Type'' ''application/json'',
      Serial_print ''Sending UID to server: '', Serial_println (json_of_uid uid)] @
     pattern_calls GREEN_LED 2 100 @
     [Http_POST (json_of_uid uid)] @
     (if post_result e > 0 then
        [Http_getString, Serial_print ''Server response code: '',
         Serial_println_int (post_result e), Serial_print ''Response body: '',
         Serial_println (response_body e)] @
        (if post_result e = 200 then pattern_calls GREEN_LED 3 200
         else [Serial_println server_error_message] @ pattern_calls RED_LED 3 200)
      else
        [Serial_print ''HTTP Request failed: '', Serial_println (error_text e)] @
        pattern_calls RED_LED 5 100) @
     [Http_end]"
  unfolding loop_connected_def Let_def
  by (simp add: calls_emit calls_blinkLED)


lemma emitted_append: "calls (f s) = calls s @ xs \<Longrightarrow> emitted f s = xs"
  by (simp add: emitted_def)

lemma emitted_loop_connected:
  "emitted (loop_connected e uid) s =
     [Http_begin serverURL, Http_addHeader ''Content-Type'' ''application/json'',
      Serial_print ''Sending UID to server: '', Serial_println (json_of_uid uid)] @
     pattern_calls GREEN_LED 2 100 @
     [Http_POST (json_of_uid uid)] @
     (if post_result e > 0 then
        [Http_getString, Serial_print ''Server response code: '',
         Serial_println_int (post_result e), Serial_print ''Response body: '',
         Serial_println (response_body e)] @
        (if post_result e = 200 then pattern_calls GREEN_LED 3 200
         else [Serial_println server_error_message] @ pattern_calls RED_LED 3 200)
      else
        [Serial_print ''HTTP Request failed: '', Serial_println (error_text e)] @
        pattern_calls RED_LED 5 100) @
     [Http_end]"
  by (rule emitted_append) (rule calls_loop_connected)

lemma calls_loop_connected_emitted:
  "calls (loop_connected e uid s) = calls s @ emitted (loop_connected e uid) s'"
  by (simp only: emitted_loop_connected calls_loop_connected)

lemma calls_loop:
  "calls (loop e s) =
     calls s @
     (if \<not> new_card_present e \<or> \<not> read_card_serial e then []
      else
        [Serial_print ''Card detected, UID: '', Serial_println (build_uid (uid_bytes e))] @
        pattern_calls RED_LED 1 150 @
        (if wifi_connected e then emitted (loop_connected e (build_uid (uid_bytes e))) s
         else [Serial_println ''WiFi not connected!''] @ pattern_calls RED_LED 2 400) @
        [Delay 2000])"
  unfolding loop_def Let_def
  by (simp add: calls_emit calls_delay calls_blinkLED
      calls_loop_connected_emitted [where s' = s])

lemma level_loop_connected:
  "level (loop_connected e uid s) = (level s)(GREEN_LED := False,
      RED_LED := (if post_result e = 200 then level s RED_LED else False))"
  unfolding loop_connected_def Let_def
  by (auto simp add: level_emit level_blinkLED fun_eq_iff)

lemma level_loop_connected_green: "level (loop_connected e uid s) GREEN_LED = False"
  by (simp add: level_loop_connected)

lemma level_loop_green:
  "new_card_present e \<Longrightarrow> read_card_serial e \<Longrightarrow> wifi_connected e \<Longrightarrow>
     level (loop e s) GREEN_LED = False"
  unfolding loop_def Let_def
  by (simp add: level_delay level_loop_connected_green)

lemma loop_no_card: "\<not> new_card_present e \<Longrightarrow> loop e s = s"
  by (simp add: loop_def)

lemma last_calls_loop:
  "new_card_present e \<Longrightarrow> read_card_serial e \<Longrightarrow> last (calls (loop e s)) = Delay 2000"
  by (simp add: calls_loop)

lemma level_setup_end: "level (setup_end e s) GREEN_LED = True"
  by (simp add: setup_end_def Let_def level_digitalWrite)

lemma emitted_loop:
  "emitted (loop e) s =
     (if \<not> new_card_present e \<or> \<not> read_card_serial e then []
      else
        [Serial_print ''Card detected, UID: '', Serial_println (build_uid (uid_bytes e))] @
        pattern_calls RED_LED 1 150 @
        (if wifi_connected e then emitted (loop_connected e (build_uid (uid_bytes e))) s
         else [Serial_println ''WiFi not connected!''] @ pattern_calls RED_LED 2 400) @
        [Delay 2000])"
  by (rule emitted_append) (rule calls_loop)

lemma emitted_loop_disconnected:
  "new_card_present e \<Longrightarrow> read_card_serial e \<Longrightarrow> \<not> wifi_connected e \<Longrightarrow>
     emitted (loop e) s =
       [Serial_print ''Card detected, UID: '', Serial_println (build_uid (uid_bytes e))] @
       pattern_calls RED_LED 1 150 @
       [Serial_println ''WiFi not connected!''] @
       pattern_calls RED_LED 2 400 @
       [Delay 2000]"
  by (simp add: emitted_loop)

lemma emitted_loop_connected_case:
  "new_card_present e \<Longrightarrow> read_card_serial e \<Longrightarrow> wifi_connected e \<Longrightarrow>
     emitted (loop e) s =
       [Serial_print ''Card detected, UID: '', Serial_println (build_uid (uid_bytes e))] @
       pattern_calls RED_LED 1 150 @
       emitted (loop_connected e (build_uid (uid_bytes e))) s @
       [Delay 2000]"
  by (simp add: emitted_loop)

lemma signals_loop_connected:
  "filter is_signal (emitted (loop_connected e uid) s) =
     pattern_calls GREEN_LED 2 100 @
     (if post_result e > 0 then
        (if post_result e = 200 then pattern_calls GREEN_LED 3 200
         else pattern_calls RED_LED 3 200)
      else pattern_calls RED_LED 5 100)"
  by (simp add: emitted_loop_connected signals_pattern_calls)

lemma http_loop_connected:
  "filter is_http (emitted (loop_connected e uid) s) =
     [Http_begin serverURL, Http_addHeader ''Content-Type'' ''application/json'',
      Http_POST (json_of_uid uid)] @
     (if post_result e > 0 then [Http_getString] else []) @
     [Http_end]"
  by (simp add: emitted_loop_connected http_pattern_calls)

lemma count_on_pattern_calls:
  "length (filter (\<lambda>ev. ev = DigitalWrite p True) (pattern_calls p n d)) = n"
  by (induction n) (simp add: pattern_calls_def, simp add: pattern_calls_Suc)

lemma count_off_pattern_calls:
  "length (filter (\<lambda>ev. ev = DigitalWrite p False) (pattern_calls p n d)) = n"
  by (induction n) (simp add: pattern_calls_def, simp add: pattern_calls_Suc)

subsection \<open>The identifier string\<close>

text \<open>
  A byte is written with one character when it is below 0x10 and with two otherwise, so
  the identifier string has two characters for each byte less one for each byte below
  0x10.
\<close>

lemma utoa_HEX_byte:
  "v < 256 \<Longrightarrow>
     utoa v 16 =
       (if v < 16 then [utoa_digits ! v]
        else [utoa_digits ! (v div 16), utoa_digits ! (v mod 16)])"
proof -
  assume v: "v < 256"
  then have q: "v div 16 < 16" by simp
  show ?thesis
  proof (cases "v < 16")
    case True
    then show ?thesis by (simp add: utoa_def)
  next
    case False
    with q show ?thesis by (simp add: utoa_def)
  qed
qed

lemma String_of_byte_HEX:
  "String_of_byte b HEX =
     (if unat b < 16 then [utoa_digits ! unat b]
      else [utoa_digits ! (unat b div 16), utoa_digits ! (unat b mod 16)])"
proof -
  have "unat b < 2 ^ LENGTH(8)" by (rule unsigned_less)
  then have "unat b < 256" by simp
  then show ?thesis by (simp add: String_of_byte_def HEX_def utoa_HEX_byte)
qed

lemma length_String_of_byte_HEX:
  "length (String_of_byte b HEX) = (if unat b < 16 then 1 else 2)"
  by (simp add: String_of_byte_HEX)

lemma length_uid_append:
  "length (uid_append uid bs) =
     length uid + 2 * length bs - length (filter (\<lambda>b. unat b < 16) bs)"
proof (induction bs arbitrary: uid)
  case Nil
  show ?case by simp
next
  case (Cons b bs)
  have "length (filter (\<lambda>b. unat b < 16) bs) \<le> length bs" by simp
  then show ?case by (simp add: Cons.IH length_String_of_byte_HEX)
qed

lemma length_build_uid:
  "length (build_uid bs) = 2 * length bs - length (filter (\<lambda>b. unat b < 16) bs)"
  by (simp add: build_uid_def toLowerCase_def length_uid_append)

text \<open>
  C1. The specification asks for exactly two lowercase hexadecimal characters for each
  byte, so that the bytes 04 A1 B2 give \<open>04a1b2\<close>. The sketch does not do that: a byte
  below 0x10 gives one character, and the bytes 04 A1 B2 give the five characters
  \<open>4a1b2\<close>.
\<close>

theorem build_uid_drops_leading_zero:
  "build_uid [0x04, 0xA1, 0xB2] = ''4a1b2'' \<and>
   build_uid [0x04, 0xA1, 0xB2] \<noteq> ''04a1b2'' \<and>
   length (build_uid [0x04, 0xA1, 0xB2]) \<noteq> 2 * length [0x04, 0xA1, 0xB2 :: byte]"
  by (simp add: build_uid_def String_of_byte_def utoa_def HEX_def utoa_digits_def
      toLowerCase_def tolower_def)

text \<open>
  C10. The identifier string does not determine the bytes: the two distinct byte
  sequences 01 23 and 12 03 both give \<open>123\<close>, because the bytes 01 and 03 are written
  as the single characters \<open>1\<close> and \<open>3\<close>, and so both tags are sent to the service in
  the same request body.
\<close>

theorem build_uid_not_injective:
  \<open>[0x01, 0x23] \<noteq> [0x12, 0x03 :: byte] \<and>
   build_uid [0x01, 0x23] = ''123'' \<and>
   build_uid [0x12, 0x03] = ''123'' \<and>
   String_of_byte 0x01 HEX = ''1'' \<and>
   String_of_byte 0x03 HEX = ''3'' \<and>
   json_of_uid (build_uid [0x01, 0x23]) = json_of_uid (build_uid [0x12, 0x03])\<close>
  by (simp add: build_uid_def String_of_byte_def utoa_def HEX_def utoa_digits_def
      toLowerCase_def tolower_def)

subsection \<open>Indicator patterns\<close>

text \<open>
  C8. For a positive number of repetitions and a positive duration, \<open>blinkLED\<close> makes
  exactly the calls of the pattern: that many times the light on, the delay, the light
  off, the delay. It switches the light on and off that many times each, leaves it off,
  and leaves the other light as it was.
\<close>

theorem blinkLED_pattern:
  "0 < times' \<Longrightarrow> 0 < delayMs \<Longrightarrow>
     emitted (blinkLED p times' delayMs) s = pattern_calls p (nat times') delayMs \<and>
     length (filter (\<lambda>ev. ev = DigitalWrite p True) (emitted (blinkLED p times' delayMs) s))
       = nat times' \<and>
     length (filter (\<lambda>ev. ev = DigitalWrite p False) (emitted (blinkLED p times' delayMs) s))
       = nat times' \<and>
     level (blinkLED p times' delayMs s) p = False \<and>
     (\<forall>q. q \<noteq> p \<longrightarrow> level (blinkLED p times' delayMs s) q = level s q)"
  by (simp add: emitted_def calls_blinkLED level_blinkLED count_on_pattern_calls
      count_off_pattern_calls)

theorem blinkLED_pattern_witness:
  "emitted (blinkLED RED_LED 2 400) (board power_on) =
     [DigitalWrite RED_LED True, Delay 400, DigitalWrite RED_LED False, Delay 400,
      DigitalWrite RED_LED True, Delay 400, DigitalWrite RED_LED False, Delay 400] \<and>
   level (blinkLED RED_LED 2 400 (board power_on)) RED_LED = False \<and>
   level (blinkLED RED_LED 2 400 (board power_on)) GREEN_LED = level (board power_on) GREEN_LED"
  using blinkLED_pattern [of 2 400 RED_LED "board power_on"]
  by (simp add: pattern_calls_def numeral_2_eq_2)

subsection \<open>The device state\<close>

lemma state_step_Ready: "state d = Ready \<Longrightarrow> state (step d e) = Ready"
  by simp

lemma state_run_Ready: "state d = Ready \<Longrightarrow> state (run d es) = Ready"
  unfolding run_def
  by (induction es arbitrary: d) simp_all

lemma ready_entries_Ready: "state d = Ready \<Longrightarrow> ready_entries d es = 0"
  by (induction es arbitrary: d) simp_all

lemma ready_entries_le: "ready_entries d es \<le> 1"
proof (induction es arbitrary: d)
  case Nil
  show ?case by simp
next
  case (Cons e es)
  show ?case
  proof (cases "state (step d e) = Ready")
    case True
    then have "ready_entries (step d e) es = 0" by (rule ready_entries_Ready)
    then show ?thesis by simp
  next
    case False
    with Cons.IH [of "step d e"] show ?thesis by simp
  qed
qed

lemma run_Cons: "run d (e # es) = run (step d e) es"
  by (simp add: run_def)

lemma connecting_joins:
  "state d = ConnectingNetwork \<Longrightarrow> \<exists>e\<in>set es. wifi_connected e \<Longrightarrow>
     ready_entries d es = 1 \<and> state (run d es) = Ready"
proof (induction es arbitrary: d)
  case Nil
  then show ?case by simp
next
  case (Cons e es)
  show ?case
  proof (cases "wifi_connected e")
    case True
    with Cons.prems(1) have r: "state (step d e) = Ready" by simp
    from r have "ready_entries (step d e) es = 0" by (rule ready_entries_Ready)
    moreover from r have "state (run (step d e) es) = Ready" by (rule state_run_Ready)
    ultimately show ?thesis using r Cons.prems(1) by (simp add: run_Cons del: step.simps)
  next
    case False
    with Cons.prems(1) have c: "state (step d e) = ConnectingNetwork" by simp
    from False Cons.prems(2) have "\<exists>e\<in>set es. wifi_connected e" by simp
    with c have "ready_entries (step d e) es = 1 \<and> state (run (step d e) es) = Ready"
      by (rule Cons.IH)
    then show ?thesis using c Cons.prems(1) by (simp add: run_Cons del: step.simps)
  qed
qed

lemma state_step_power_on: "state (step power_on e) = ConnectingNetwork"
  by (simp add: power_on_def)

lemma connecting_waits:
  "state d = ConnectingNetwork \<Longrightarrow> \<not> (\<exists>e\<in>set es. wifi_connected e) \<Longrightarrow>
     ready_entries d es = 0 \<and> state (run d es) = ConnectingNetwork"
proof (induction es arbitrary: d)
  case Nil
  then show ?case by (simp add: run_def)
next
  case (Cons e es)
  from Cons.prems(2) have n: "\<not> wifi_connected e" by simp
  with Cons.prems(1) have c: "state (step d e) = ConnectingNetwork" by simp
  from Cons.prems(2) have "\<not> (\<exists>e\<in>set es. wifi_connected e)" by simp
  with c have "ready_entries (step d e) es = 0 \<and> state (run (step d e) es) = ConnectingNetwork"
    by (rule Cons.IH)
  then show ?case using c Cons.prems(1) by (simp add: run_Cons del: step.simps)
qed

lemma connecting_run:
  "state d = ConnectingNetwork \<Longrightarrow>
     ready_entries d es = (if \<exists>e\<in>set es. wifi_connected e then 1 else 0) \<and>
     state (run d es) = (if \<exists>e\<in>set es. wifi_connected e then Ready else ConnectingNetwork)"
proof (cases "\<exists>e\<in>set es. wifi_connected e")
  case True
  assume "state d = ConnectingNetwork"
  from connecting_joins [OF this True] True show ?thesis by simp
next
  case False
  assume "state d = ConnectingNetwork"
  from connecting_waits [OF this False] False show ?thesis by simp
qed

lemma state_step_Booting: "state d = Booting \<Longrightarrow> state (step d e) = ConnectingNetwork"
  by simp

lemma state_step_Connecting:
  "state d = ConnectingNetwork \<Longrightarrow>
     state (step d e) = (if wifi_connected e then Ready else ConnectingNetwork)"
  by simp

text \<open>
  C3. In every run, from any device state, at most one step enters \<open>Ready\<close>. From
  \<open>Ready\<close> every step leads to \<open>Ready\<close>, whatever the outside world answers (a scan
  that finds WiFi disconnected included), so a run from \<open>Ready\<close> ends in \<open>Ready\<close> and
  enters it no more. The only step that enters \<open>Ready\<close> is the step from
  \<open>ConnectingNetwork\<close> at which WiFi is seen connected: a step from \<open>Booting\<close> leads to
  \<open>ConnectingNetwork\<close>, and a step from \<open>ConnectingNetwork\<close> leads to \<open>Ready\<close> when WiFi
  is seen connected and stays in \<open>ConnectingNetwork\<close> otherwise. So a run from
  \<open>ConnectingNetwork\<close>, and a run from power-on after its first step, enters \<open>Ready\<close>
  exactly once and ends there when WiFi is seen connected at some test of the wait loop,
  and never enters it and ends in \<open>ConnectingNetwork\<close> when it is not.
\<close>

theorem ready_entered_once_never_left:
  "ready_entries d es \<le> 1 \<and>
   (state d = Ready \<longrightarrow> state (step d e) = Ready \<and> state (run d es) = Ready \<and> ready_entries d es = 0) \<and>
   ((\<exists>e\<in>set es. wifi_connected e) \<longrightarrow>
      ready_entries power_on (e # es) = 1 \<and> state (run power_on (e # es)) = Ready) \<and>
   (\<not> (\<exists>e\<in>set es. wifi_connected e) \<longrightarrow>
      ready_entries power_on (e # es) = 0 \<and>
      state (run power_on (e # es)) = ConnectingNetwork) \<and>
   (state d = Booting \<longrightarrow> state (step d e) = ConnectingNetwork) \<and>
   (state d = ConnectingNetwork \<longrightarrow>
      state (step d e) = (if wifi_connected e then Ready else ConnectingNetwork) \<and>
      ready_entries d es = (if \<exists>e\<in>set es. wifi_connected e then 1 else 0) \<and>
      state (run d es) = (if \<exists>e\<in>set es. wifi_connected e then Ready else ConnectingNetwork))"
proof -
  have a: "ready_entries d es \<le> 1" by (rule ready_entries_le)
  have b: "state d = Ready \<longrightarrow>
      state (step d e) = Ready \<and> state (run d es) = Ready \<and> ready_entries d es = 0"
    by (simp add: state_run_Ready ready_entries_Ready)
  have s: "state (step power_on e) = ConnectingNetwork" by (rule state_step_power_on)
  have c: "(\<exists>e\<in>set es. wifi_connected e) \<longrightarrow>
      ready_entries power_on (e # es) = 1 \<and> state (run power_on (e # es)) = Ready"
  proof
    assume j: "\<exists>e\<in>set es. wifi_connected e"
    from connecting_joins [OF s j] s
    show "ready_entries power_on (e # es) = 1 \<and> state (run power_on (e # es)) = Ready"
      by (simp add: run_Cons del: step.simps)
  qed
  have c': "\<not> (\<exists>e\<in>set es. wifi_connected e) \<longrightarrow>
      ready_entries power_on (e # es) = 0 \<and>
      state (run power_on (e # es)) = ConnectingNetwork"
  proof
    assume j: "\<not> (\<exists>e\<in>set es. wifi_connected e)"
    from connecting_waits [OF s j] s
    show "ready_entries power_on (e # es) = 0 \<and>
      state (run power_on (e # es)) = ConnectingNetwork"
      by (simp add: run_Cons del: step.simps)
  qed
  have f: "state d = Booting \<longrightarrow> state (step d e) = ConnectingNetwork"
    by (simp add: state_step_Booting del: step.simps)
  have g: "state d = ConnectingNetwork \<longrightarrow>
      state (step d e) = (if wifi_connected e then Ready else ConnectingNetwork) \<and>
      ready_entries d es = (if \<exists>e\<in>set es. wifi_connected e then 1 else 0) \<and>
      state (run d es) = (if \<exists>e\<in>set es. wifi_connected e then Ready else ConnectingNetwork)"
  proof
    assume k: "state d = ConnectingNetwork"
    from state_step_Connecting [OF k] connecting_run [OF k]
    show "state (step d e) = (if wifi_connected e then Ready else ConnectingNetwork) \<and>
      ready_entries d es = (if \<exists>e\<in>set es. wifi_connected e then 1 else 0) \<and>
      state (run d es) = (if \<exists>e\<in>set es. wifi_connected e then Ready else ConnectingNetwork)"
      by (simp del: step.simps)
  qed
  from a b c c' f g show ?thesis by (intro conjI)
qed

theorem ready_entered_once_never_left_witness:
  "state (run power_on [no_tag False, no_tag False, no_tag True]) = Ready \<and>
   state (run power_on [no_tag False, no_tag False, no_tag True,
                        tag_scan [0x12, 0x34] False 200]) = Ready \<and>
   ready_entries power_on [no_tag False, no_tag False, no_tag True,
                           tag_scan [0x12, 0x34] False 200] = 1 \<and>
   state (run power_on [no_tag True, no_tag False, tag_scan [0x12, 0x34] False 200])
     = ConnectingNetwork \<and>
   ready_entries power_on [no_tag True, no_tag False, tag_scan [0x12, 0x34] False 200] = 0 \<and>
   state (step power_on (no_tag True)) = ConnectingNetwork \<and>
   state (step (step power_on (no_tag True)) (no_tag False)) = ConnectingNetwork \<and>
   state (step (step power_on (no_tag True)) (no_tag True)) = Ready"
  using ready_entered_once_never_left [of "run power_on [no_tag False, no_tag False, no_tag True]"
               "[tag_scan [0x12, 0x34] False 200]" "no_tag False"]
        ready_entered_once_never_left [of power_on "[no_tag False, no_tag True, tag_scan [0x12, 0x34] False 200]"
               "no_tag False"]
        ready_entered_once_never_left [of power_on "[no_tag False, tag_scan [0x12, 0x34] False 200]"
               "no_tag True"]
        ready_entered_once_never_left [of "step power_on (no_tag True)" "[]" "no_tag False"]
        ready_entered_once_never_left [of "step power_on (no_tag True)" "[]" "no_tag True"]
  by (simp add: run_def power_on_def no_tag_def tag_scan_def)

text \<open>
  C2. The specification asks that in \<open>Ready\<close> the green light is on whenever no blink
  pattern is running, and the header comment of the sketch says the same (Ready: green
  solid on). The sketch switches the green light on once, at the end of \<open>setup\<close>, and
  the first tag reported while connected leaves it off: after power-on, the join at
  the first test of the wait loop, and one scan of the tag 12 34 answered with 200, the
  device is in \<open>Ready\<close>, its last call was the pause of 2000 ms, and the green light is off. It
  stays off during the idle polls that follow.
\<close>

theorem green_off_after_reported_scan:
  "state (run power_on [no_tag False, no_tag True]) = Ready \<and>
   level (board (run power_on [no_tag False, no_tag True])) GREEN_LED = True \<and>
   state (run power_on [no_tag False, no_tag True, tag_scan [0x12, 0x34] True 200]) = Ready \<and>
   last (calls (board (run power_on [no_tag False, no_tag True,
                                     tag_scan [0x12, 0x34] True 200]))) = Delay 2000 \<and>
   level (board (run power_on [no_tag False, no_tag True,
                               tag_scan [0x12, 0x34] True 200])) GREEN_LED = False \<and>
   level (board (run power_on [no_tag False, no_tag True,
                               tag_scan [0x12, 0x34] True 200, no_tag True])) GREEN_LED = False"
proof -
  have t: "new_card_present (tag_scan [0x12, 0x34] True 200)"
    "read_card_serial (tag_scan [0x12, 0x34] True 200)"
    "wifi_connected (tag_scan [0x12, 0x34] True 200)"
    by (simp_all add: tag_scan_def)
  have n: "\<not> new_card_present (no_tag True)" "wifi_connected (no_tag True)"
    by (simp_all add: no_tag_def)
  show ?thesis
    by (simp add: run_def power_on_def t n level_setup_end level_loop_green
        last_calls_loop loop_no_card)
qed

subsection \<open>One pass of loop with a tag\<close>

text \<open>
  C4. When a tag is read and WiFi is not connected, the pass makes no call to the HTTP
  client at all (no request is built or sent; the specification's outcome is
  \<open>NetworkUnavailable\<close>). Its light and delay calls are the tag-detected pattern (red,
  once, 150 ms), then the pattern red, 2 repetitions, 400 ms, then the pause.
\<close>

theorem scan_without_network_sends_nothing:
  "new_card_present e \<Longrightarrow> read_card_serial e \<Longrightarrow> \<not> wifi_connected e \<Longrightarrow>
     filter is_http (emitted (loop e) s) = [] \<and>
     filter is_signal (emitted (loop e) s) =
       pattern_calls RED_LED 1 150 @ pattern_calls RED_LED 2 400 @ [Delay 2000] \<and>
     emitted (loop e) s =
       [Serial_print ''Card detected, UID: '', Serial_println (build_uid (uid_bytes e))] @
       pattern_calls RED_LED 1 150 @
       [Serial_println ''WiFi not connected!''] @
       pattern_calls RED_LED 2 400 @
       [Delay 2000] \<and>
     outcome e = NetworkUnavailable"
  by (simp add: emitted_loop_disconnected http_pattern_calls signals_pattern_calls outcome_def)

theorem scan_without_network_sends_nothing_witness:
  "filter is_http (emitted (loop (tag_scan [0x12, 0x34] False 200)) (board power_on)) = [] \<and>
   filter is_signal (emitted (loop (tag_scan [0x12, 0x34] False 200)) (board power_on)) =
     [DigitalWrite RED_LED True, Delay 150, DigitalWrite RED_LED False, Delay 150,
      DigitalWrite RED_LED True, Delay 400, DigitalWrite RED_LED False, Delay 400,
      DigitalWrite RED_LED True, Delay 400, DigitalWrite RED_LED False, Delay 400,
      Delay 2000] \<and>
   outcome (tag_scan [0x12, 0x34] False 200) = NetworkUnavailable"
  using scan_without_network_sends_nothing [of "tag_scan [0x12, 0x34] False 200" "board power_on"]
  by (simp add: tag_scan_def pattern_calls_def numeral_2_eq_2)

text \<open>
  C5. When a tag is read and WiFi is connected, the value \<open>http.POST\<close> returns decides
  the outcome and the pattern that follows the transmitting pattern: 200 is \<open>Success\<close>
  and green, 3 repetitions, 200 ms; any other received status (a positive value) is
  \<open>ServerRejected\<close> and red, 3 repetitions, 200 ms; a failed exchange (a value that is
  not positive) is \<open>TransportFailed\<close> and red, 5 repetitions, 100 ms.
\<close>

theorem outcome_patterns:
  "new_card_present e \<Longrightarrow> read_card_serial e \<Longrightarrow> wifi_connected e \<Longrightarrow>
     (post_result e = 200 \<longrightarrow>
        outcome e = Success \<and>
        filter is_signal (emitted (loop e) s) =
          pattern_calls RED_LED 1 150 @ pattern_calls GREEN_LED 2 100 @
          pattern_calls GREEN_LED 3 200 @ [Delay 2000]) \<and>
     (0 < post_result e \<and> post_result e \<noteq> 200 \<longrightarrow>
        outcome e = ServerRejected (post_result e) (response_body e) \<and>
        filter is_signal (emitted (loop e) s) =
          pattern_calls RED_LED 1 150 @ pattern_calls GREEN_LED 2 100 @
          pattern_calls RED_LED 3 200 @ [Delay 2000]) \<and>
     (post_result e \<le> 0 \<longrightarrow>
        outcome e = TransportFailed (error_text e) \<and>
        filter is_signal (emitted (loop e) s) =
          pattern_calls RED_LED 1 150 @ pattern_calls GREEN_LED 2 100 @
          pattern_calls RED_LED 5 100 @ [Delay 2000])"
  by (simp add: emitted_loop_connected_case signals_loop_connected signals_pattern_calls
      outcome_def)

theorem outcome_patterns_witness:
  "outcome (tag_scan [0x12, 0x34] True 200) = Success \<and>
   filter is_signal (emitted (loop (tag_scan [0x12, 0x34] True 200)) (board power_on)) =
     pattern_calls RED_LED 1 150 @ pattern_calls GREEN_LED 2 100 @
     pattern_calls GREEN_LED 3 200 @ [Delay 2000] \<and>
   outcome (tag_scan [0x12, 0x34] True 503) = ServerRejected 503 ''ok'' \<and>
   filter is_signal (emitted (loop (tag_scan [0x12, 0x34] True 503)) (board power_on)) =
     pattern_calls RED_LED 1 150 @ pattern_calls GREEN_LED 2 100 @
     pattern_calls RED_LED 3 200 @ [Delay 2000] \<and>
   outcome (tag_scan [0x12, 0x34] True (- 1)) = TransportFailed ''connection failed'' \<and>
   filter is_signal (emitted (loop (tag_scan [0x12, 0x34] True (- 1))) (board power_on)) =
     pattern_calls RED_LED 1 150 @ pattern_calls GREEN_LED 2 100 @
     pattern_calls RED_LED 5 100 @ [Delay 2000]"
  using outcome_patterns [of "tag_scan [0x12, 0x34] True 200" "board power_on"]
        outcome_patterns [of "tag_scan [0x12, 0x34] True 503" "board power_on"]
        outcome_patterns [of "tag_scan [0x12, 0x34] True (- 1)" "board power_on"]
  by (simp add: tag_scan_def)

text \<open>
  C6. When a tag is read and WiFi is connected, the calls to the HTTP client are: begin
  with the server URL, the header Content-Type: application/json, one POST whose body is
  the identifier string between \<open>{"uid":"\<close> and \<open>"}\<close> with nothing added or escaped,
  the read of the response when one was received, and end. The identifier \<open>04a1b2\<close>
  gives the body \<open>{"uid":"04a1b2"}\<close>.
\<close>

theorem report_request:
  \<open>new_card_present e \<Longrightarrow> read_card_serial e \<Longrightarrow> wifi_connected e \<Longrightarrow>
     filter is_http (emitted (loop e) s) =
       [Http_begin serverURL, Http_addHeader ''Content-Type'' ''application/json'',
        Http_POST (json_of_uid (build_uid (uid_bytes e)))] @
       (if post_result e > 0 then [Http_getString] else []) @
       [Http_end] \<and>
     json_of_uid uid = ''{"uid":"'' @ uid @ ''"}'' \<and>
     json_of_uid ''04a1b2'' = ''{"uid":"04a1b2"}''\<close>
  by (simp add: emitted_loop_connected_case http_loop_connected http_pattern_calls
      json_of_uid_def)

theorem report_request_witness:
  \<open>filter is_http (emitted (loop (tag_scan [0x00, 0x4A, 0x1B, 0x02] True 200)) (board power_on)) =
     [Http_begin ''http://192.168.29.130:5000/api/rfid_scan'',
      Http_addHeader ''Content-Type'' ''application/json'',
      Http_POST ''{"uid":"04a1b2"}'', Http_getString, Http_end]\<close>
  using report_request [of "tag_scan [0x00, 0x4A, 0x1B, 0x02] True 200" "board power_on" "[]"]
  by (simp add: tag_scan_def serverURL_def json_of_uid_def build_uid_def String_of_byte_def
      utoa_def HEX_def utoa_digits_def toLowerCase_def tolower_def)

text \<open>
  C7. Whenever a tag is read, whichever branch handles it, the last call of the pass is
  the pause of 2000 ms. When WiFi is connected and the POST returns 200, the light and
  delay calls of the pass are exactly the patterns tag detected (red, once, 150 ms),
  transmitting (green, twice, 100 ms) and accepted (green, 3 times, 200 ms), in that
  order, followed by the pause.
\<close>

theorem accepted_scan_sequence_and_pause:
  "new_card_present e \<Longrightarrow> read_card_serial e \<Longrightarrow>
     emitted (loop e) s \<noteq> [] \<and>
     last (emitted (loop e) s) = Delay 2000 \<and>
     (wifi_connected e \<and> post_result e = 200 \<longrightarrow>
        filter is_signal (emitted (loop e) s) =
          pattern_calls RED_LED 1 150 @ pattern_calls GREEN_LED 2 100 @
          pattern_calls GREEN_LED 3 200 @ [Delay 2000])"
  by (simp add: emitted_loop signals_loop_connected signals_pattern_calls)

theorem accepted_scan_sequence_and_pause_witness:
  "last (emitted (loop (tag_scan [0x12, 0x34] True 200)) (board power_on)) = Delay 2000 \<and>
   filter is_signal (emitted (loop (tag_scan [0x12, 0x34] True 200)) (board power_on)) =
     [DigitalWrite RED_LED True, Delay 150, DigitalWrite RED_LED False, Delay 150,
      DigitalWrite GREEN_LED True, Delay 100, DigitalWrite GREEN_LED False, Delay 100,
      DigitalWrite GREEN_LED True, Delay 100, DigitalWrite GREEN_LED False, Delay 100,
      DigitalWrite GREEN_LED True, Delay 200, DigitalWrite GREEN_LED False, Delay 200,
      DigitalWrite GREEN_LED True, Delay 200, DigitalWrite GREEN_LED False, Delay 200,
      DigitalWrite GREEN_LED True, Delay 200, DigitalWrite GREEN_LED False, Delay 200,
      Delay 2000]"
  using accepted_scan_sequence_and_pause [of "tag_scan [0x12, 0x34] True 200" "board power_on"]
  by (simp add: tag_scan_def pattern_calls_def numeral_2_eq_2 numeral_3_eq_3)

text \<open>
  C9. The calls a pass of \<open>loop\<close> makes depend only on what the outside world answers
  in that pass (the tag bytes, the connectivity, the response), not on the state the
  earlier passes left: from any two hardware states the same answers give the same
  calls, so a second scan of the same tag is handled as the first was.
\<close>

theorem rescan_same_calls:
  "emitted (loop e) s1 = emitted (loop e) s2 \<and>
   calls (loop e s1) = calls s1 @ emitted (loop e) s2"
  by (simp add: calls_loop emitted_loop emitted_loop_connected)

theorem rescan_same_calls_witness:
  "emitted (loop (tag_scan [0x12, 0x34] True 200)) (board power_on) =
   emitted (loop (tag_scan [0x12, 0x34] True 200))
     (loop (tag_scan [0x12, 0x34] True 200) (board power_on))"
  using rescan_same_calls [of "tag_scan [0x12, 0x34] True 200" "board power_on"
      "loop (tag_scan [0x12, 0x34] True 200) (board power_on)"]
  by simp

end
